theory Spec2Isabelle
  imports Main
begin

section \<open>Statements, evidence and hashes\<close>

text \<open>
  A statement is a typed assertion over agents that owns a list of evidence records.
  The statement object model belongs to the INDRA library; only the attributes the
  managers touch are kept: the type, the agents and the evidence list.
\<close>

record evidence =
  source_api :: string
  source_id :: string
  pmid :: string
  text_of :: string

record statement =
  stmt_type :: string
  agents :: "string list"
  evidence :: "evidence list"

text \<open>
  The two hash functions are library code. They are parameters of the model: the content
  hash reads the type and the agents only, the source hash reads one evidence record.
\<close>

record hashing =
  content_hash :: "string \<Rightarrow> string list \<Rightarrow> int"
  evidence_hash :: "evidence \<Rightarrow> int"

definition get_hash :: "hashing \<Rightarrow> statement \<Rightarrow> int" where
  "get_hash H s = content_hash H (stmt_type s) (agents s)"

definition get_source_hash :: "hashing \<Rightarrow> evidence \<Rightarrow> int" where
  "get_source_hash H ev = evidence_hash H ev"

datatype exn =
    ValueError string
  | IndexError
  | TypeError
  | AttributeError
  | InvalidStatement
  | SingleEvidenceViolation
  | ExternalError string

section \<open>Evidence expander\<close>

text \<open>
  Modelled from the spec: \<open>make_generic_copy\<close> is a method of the library's statement
  class; the copy has the same type and agents and a cleared evidence list.
\<close>

definition make_generic_copy :: "statement \<Rightarrow> statement" where
  "make_generic_copy stmt = stmt\<lparr>evidence := []\<rparr>"

text \<open>\<open>new_stmt.evidence.append(ev)\<close> on a fresh copy.\<close>

definition append_evidence :: "statement \<Rightarrow> evidence \<Rightarrow> statement" where
  "append_evidence stmt ev = stmt\<lparr>evidence := evidence stmt @ [ev]\<rparr>"

text \<open>The inner loop of \<open>_expanded\<close>: one generic copy per evidence record, in order.\<close>

fun expand_each :: "statement \<Rightarrow> evidence list \<Rightarrow> statement list" where
  "expand_each stmt [] = []"
| "expand_each stmt (ev # evs) =
     append_evidence (make_generic_copy stmt) ev # expand_each stmt evs"

text \<open>The generator \<open>_expanded\<close>, as the list of what it yields.\<close>

fun expanded :: "statement list \<Rightarrow> statement list" where
  "expanded [] = []"
| "expanded (stmt # stmts) =
     (if length (evidence stmt) > 1 then expand_each stmt (evidence stmt) else [stmt])
     @ expanded stmts"

definition total_evidence :: "statement list \<Rightarrow> nat" where
  "total_evidence stmts = sum_list (map (\<lambda>s. length (evidence s)) stmts)"

section \<open>The store as the knowledgebase manager sees it\<close>

record db_info_row =
  info_id :: nat
  db_name :: string
  info_source_api :: string
  db_full_name :: string

text \<open>The registration column of a statement row is nullable.\<close>

record raw_statement_row =
  mk_hash :: int
  source_hash :: int
  db_info_id :: "nat option"

text \<open>Every call the manager makes on the store is logged in order.\<close>

datatype db_call =
    SelectOneDBInfo string
  | InsertDBInfo string string string
  | Commit
  | SelectAllKeys nat
  | InsertDbStmts "nat option" nat

record database =
  db_info :: "db_info_row list"
  raw_statements :: "raw_statement_row list"
  calls :: "db_call list"

definition logged :: "db_call \<Rightarrow> database \<Rightarrow> database" where
  "logged c db = db\<lparr>calls := calls db @ [c]\<rparr>"

text \<open>The calls that are invocations of the batch insert.\<close>

fun is_batch_insert :: "db_call \<Rightarrow> bool" where
  "is_batch_insert (InsertDbStmts _ _) = True"
| "is_batch_insert _ = False"

text \<open>
  Modelled from the spec: the store's \<open>select_one\<close>, \<open>insert\<close>, \<open>commit\<close> and
  \<open>select_all\<close> are methods of the database manager, which is not among the sources.
  \<open>select_one\<close> returns the first registration with the given name, \<open>insert\<close> adds a row
  under a fresh identifier and returns it, \<open>commit\<close> writes a changed row back.
\<close>

definition select_one :: "database \<Rightarrow> string \<Rightarrow> db_info_row option \<times> database" where
  "select_one db nm =
     (find (\<lambda>r. db_name r = nm) (db_info db), logged (SelectOneDBInfo nm) db)"

definition fresh_id :: "database \<Rightarrow> nat" where
  "fresh_id db = Suc (fold max (map info_id (db_info db)) 0)"

definition insert_info :: "database \<Rightarrow> string \<Rightarrow> string \<Rightarrow> string \<Rightarrow> nat \<times> database" where
  "insert_info db nm src full =
     (let i = fresh_id db;
          row = \<lparr>info_id = i, db_name = nm, info_source_api = src, db_full_name = full\<rparr>
      in (i, logged (InsertDBInfo nm src full) (db\<lparr>db_info := db_info db @ [row]\<rparr>)))"

definition set_source_api :: "nat \<Rightarrow> string \<Rightarrow> db_info_row \<Rightarrow> db_info_row" where
  "set_source_api i src r = (if info_id r = i then r\<lparr>info_source_api := src\<rparr> else r)"

definition commit_source_api :: "database \<Rightarrow> nat \<Rightarrow> string \<Rightarrow> database" where
  "commit_source_api db i src =
     logged Commit (db\<lparr>db_info := map (set_source_api i src) (db_info db)\<rparr>)"

definition row_key :: "raw_statement_row \<Rightarrow> int \<times> int" where
  "row_key r = (mk_hash r, source_hash r)"

definition select_all_keys :: "database \<Rightarrow> nat \<Rightarrow> (int \<times> int) list \<times> database" where
  "select_all_keys db dbid =
     (map row_key (filter (\<lambda>r. db_info_id r = Some dbid) (raw_statements db)),
      logged (SelectAllKeys dbid) db)"

text \<open>
  Modelled from the spec: \<open>insert_db_stmts\<close> lives in the repository's \<open>util\<close> package,
  which is not among the sources. It persists the statements under the registration
  identifier in one batch, one row per statement keyed by the pair of content hash and
  source hash. The store requires the single-evidence invariant, so a batch holding a
  statement that does not carry exactly one evidence record is refused as a whole.
\<close>

definition stmt_row :: "hashing \<Rightarrow> nat option \<Rightarrow> statement \<Rightarrow> evidence \<Rightarrow> raw_statement_row" where
  "stmt_row H dbid s ev =
     \<lparr>mk_hash = get_hash H s, source_hash = get_source_hash H ev, db_info_id = dbid\<rparr>"

fun batch_rows ::
  "hashing \<Rightarrow> nat option \<Rightarrow> statement list \<Rightarrow> exn + raw_statement_row list" where
  "batch_rows H dbid [] = Inr []"
| "batch_rows H dbid (s # stmts) =
     (case evidence s of
        [ev] \<Rightarrow>
          (case batch_rows H dbid stmts of
             Inl e \<Rightarrow> Inl e
           | Inr rows \<Rightarrow> Inr (stmt_row H dbid s ev # rows))
      | _ \<Rightarrow> Inl SingleEvidenceViolation)"

definition insert_db_stmts ::
  "hashing \<Rightarrow> database \<Rightarrow> statement list \<Rightarrow> nat option \<Rightarrow> (exn + unit) \<times> database" where
  "insert_db_stmts H db stmts dbid =
     (let db1 = logged (InsertDbStmts dbid (length stmts)) db in
      case batch_rows H dbid stmts of
        Inl e \<Rightarrow> (Inl e, db1)
      | Inr rows \<Rightarrow> (Inr (), db1\<lparr>raw_statements := raw_statements db1 @ rows\<rparr>))"

section \<open>Knowledgebase manager\<close>

text \<open>
  A manager is its three class attributes and its adapter. The adapter's fetch is outside
  the core: its outcome (a raised error or the statements) is a parameter, and so is the
  library's validity check.
\<close>

record manager =
  name :: string
  short_name :: string
  source :: string
  get_statements :: "exn + statement list"

text \<open>\<open>_check_reference\<close>: \<open>None\<close> is Python's \<open>None\<close>.\<close>

definition check_reference :: "manager \<Rightarrow> database \<Rightarrow> bool \<Rightarrow> nat option \<times> database" where
  "check_reference m db can_create =
     (case select_one db (short_name m) of
        (None, db1) \<Rightarrow>
          if can_create
          then (case insert_info db1 (short_name m) (source m) (name m) of
                  (dbid, db2) \<Rightarrow> (Some dbid, db2))
          else (None, db1)
      | (Some dbinfo, db1) \<Rightarrow>
          if info_source_api dbinfo \<noteq> source m
          then (Some (info_id dbinfo), commit_source_api db1 (info_id dbinfo) (source m))
          else (Some (info_id dbinfo), db1))"

text \<open>The validation loop of \<open>upload\<close>: the first invalid statement raises.\<close>

fun assert_all_valid :: "(statement \<Rightarrow> bool) \<Rightarrow> statement list \<Rightarrow> exn + unit" where
  "assert_all_valid valid [] = Inr ()"
| "assert_all_valid valid (stmt # stmts) =
     (if valid stmt then assert_all_valid valid stmts else Inl InvalidStatement)"

definition upload ::
  "hashing \<Rightarrow> (statement \<Rightarrow> bool) \<Rightarrow> manager \<Rightarrow> database \<Rightarrow> (exn + unit) \<times> database" where
  "upload H valid m db =
     (case check_reference m db True of
        (dbid, db1) \<Rightarrow>
          (case get_statements m of
             Inl e \<Rightarrow> (Inl e, db1)
           | Inr stmts \<Rightarrow>
               (case assert_all_valid valid stmts of
                  Inl e \<Rightarrow> (Inl e, db1)
                | Inr _ \<Rightarrow> insert_db_stmts H db1 stmts dbid)))"

text \<open>
  The list comprehension of \<open>update\<close>: the key of every statement is built before the
  membership test, and \<open>s.evidence[0]\<close> raises on an empty evidence list.
\<close>

fun filter_new :: "hashing \<Rightarrow> (int \<times> int) set \<Rightarrow> statement list \<Rightarrow> exn + statement list" where
  "filter_new H existing_keys [] = Inr []"
| "filter_new H existing_keys (s # stmts) =
     (case evidence s of
        [] \<Rightarrow> Inl IndexError
      | ev # _ \<Rightarrow>
          (case filter_new H existing_keys stmts of
             Inl e \<Rightarrow> Inl e
           | Inr rest \<Rightarrow>
               if (get_hash H s, get_source_hash H ev) \<notin> existing_keys
               then Inr (s # rest) else Inr rest))"

definition update :: "hashing \<Rightarrow> manager \<Rightarrow> database \<Rightarrow> (exn + unit) \<times> database" where
  "update H m db =
     (case check_reference m db False of
        (None, db1) \<Rightarrow>
          (Inl (ValueError ''This knowledge base has not yet been registered.''), db1)
      | (Some dbid, db1) \<Rightarrow>
          (case select_all_keys db1 dbid of
             (keys, db2) \<Rightarrow>
               (case get_statements m of
                  Inl e \<Rightarrow> (Inl e, db2)
                | Inr stmts \<Rightarrow>
                    (case filter_new H (set keys) stmts of
                       Inl e \<Rightarrow> (Inl e, db2)
                     | Inr filtered_stmts \<Rightarrow>
                         insert_db_stmts H db2 filtered_stmts (Some dbid)))))"

section \<open>Snapshot refresh and cutover\<close>

text \<open>
  The refresh script talks to the principal store, the readonly store and the Lambda
  client of the serving layer. The world it acts on is the schema list of the principal
  store, the environment variables of the serving function and the ordered log of the
  calls made.
\<close>

datatype ro_call =
    GetSchemas
  | DropSchema string
  | GenerateReadonly "string list option" bool
  | DumpReadonly
  | GetLambdaClient
  | UpdateFunctionConfigureation "(string \<times> string) list"
  | LoadDump string
  | SessionClose
  | GrabSession

record world =
  schemas :: "string list"
  lambda_env :: "(string \<times> string) list"
  ro_calls :: "ro_call list"

text \<open>
  What the collaborators outside the script do is a parameter: whether generation, dump
  and load raise (and what generation leaves in the schema list), whether a Lambda client
  can be obtained, and what the client answers to the method name the script calls.
\<close>

record externals =
  principal_url :: string
  generate_readonly :: "string list option \<Rightarrow> bool \<Rightarrow> string list \<Rightarrow> exn option \<times> string list"
  dump_readonly :: "exn + string"
  load_dump :: "string \<Rightarrow> exn option"
  get_lambda_client :: "exn option"
  update_function_configureation :: "(string \<times> string) list \<Rightarrow> exn option"

datatype m_views = AllViews | ViewList "string list"

record args =
  m_views :: m_views
  allow_continue :: bool
  delete_existing :: bool

text \<open>\<open>ro_names\<close>: every view when \<open>m_views\<close> is the default, the listed ones otherwise.\<close>

definition ro_names_of :: "args \<Rightarrow> string list option" where
  "ro_names_of a = (case m_views a of AllViews \<Rightarrow> None | ViewList vs \<Rightarrow> Some vs)"

text \<open>The calls that drop a schema.\<close>

fun is_drop :: "ro_call \<Rightarrow> bool" where
  "is_drop (DropSchema _) = True"
| "is_drop _ = False"

definition ro_logged :: "ro_call \<Rightarrow> world \<Rightarrow> world" where
  "ro_logged c w = w\<lparr>ro_calls := ro_calls w @ [c]\<rparr>"

text \<open>
  Modelled from the spec: \<open>get_schemas\<close> and \<open>drop_schema\<close> are methods of the store.
\<close>

definition get_schemas :: "world \<Rightarrow> string list \<times> world" where
  "get_schemas w = (schemas w, ro_logged GetSchemas w)"

definition drop_schema :: "string \<Rightarrow> world \<Rightarrow> world" where
  "drop_schema nm w = ro_logged (DropSchema nm) (w\<lparr>schemas := removeAll nm (schemas w)\<rparr>)"

text \<open>\<open>_set_lambda_env\<close>: a successful call replaces the function's variables.\<close>

definition set_lambda_env ::
  "externals \<Rightarrow> (string \<times> string) list \<Rightarrow> world \<Rightarrow> exn option \<times> world" where
  "set_lambda_env X env_dict w =
     (let w1 = ro_logged GetLambdaClient w in
      case get_lambda_client X of
        Some e \<Rightarrow> (Some e, w1)
      | None \<Rightarrow>
          (let w2 = ro_logged (UpdateFunctionConfigureation env_dict) w1 in
           case update_function_configureation X env_dict of
             Some e \<Rightarrow> (Some e, w2)
           | None \<Rightarrow> (None, w2\<lparr>lambda_env := env_dict\<rparr>)))"

definition enter :: "externals \<Rightarrow> world \<Rightarrow> exn option \<times> world" where
  "enter X w = set_lambda_env X [(''INDRAROOVERRIDE'', principal_url X)] w"

text \<open>
  \<open>__exit__\<close> is declared with \<open>self\<close> as its only parameter. The argument list holds the
  positional arguments passed besides \<open>self\<close>; a call with any is a \<open>TypeError\<close> raised
  before the body runs.
\<close>

definition exit :: "externals \<Rightarrow> exn option list \<Rightarrow> world \<Rightarrow> exn option \<times> world" where
  "exit X extra_args w =
     (if extra_args \<noteq> [] then (Some TypeError, w) else set_lambda_env X [] w)"

text \<open>
  The \<open>with\<close> statement of Python: \<open>__enter__\<close> runs first and an error there propagates
  without \<open>__exit__\<close>; after the body, \<open>__exit__\<close> is called with the exception type,
  value and traceback (three \<open>None\<close> when the body did not raise); an error raised by
  \<open>__exit__\<close> replaces the body's, otherwise the body's outcome stands (\<open>__exit__\<close> returns
  \<open>None\<close>, which suppresses nothing).
\<close>

definition exc_info :: "exn option \<Rightarrow> exn option list" where
  "exc_info r = [r, r, r]"

definition with_ReadonlyTransferEnv ::
  "externals \<Rightarrow> (world \<Rightarrow> exn option \<times> world) \<Rightarrow> world \<Rightarrow> exn option \<times> world" where
  "with_ReadonlyTransferEnv X body w =
     (case enter X w of
        (Some e, w1) \<Rightarrow> (Some e, w1)
      | (None, w1) \<Rightarrow>
          (case body w1 of
             (r, w2) \<Rightarrow>
               (case exit X (exc_info r) w2 of
                  (Some e, w3) \<Rightarrow> (Some e, w3)
                | (None, w3) \<Rightarrow> (r, w3))))"

definition do_load_dump :: "externals \<Rightarrow> string \<Rightarrow> world \<Rightarrow> exn option \<times> world" where
  "do_load_dump X dump_file w = (load_dump X dump_file, ro_logged (LoadDump dump_file) w)"

definition do_generate ::
  "externals \<Rightarrow> string list option \<Rightarrow> bool \<Rightarrow> world \<Rightarrow> exn option \<times> world" where
  "do_generate X ro_names cont w =
     (case generate_readonly X ro_names cont (schemas w) of
        (r, scs) \<Rightarrow> (r, ro_logged (GenerateReadonly ro_names cont) (w\<lparr>schemas := scs\<rparr>)))"

definition delete_if_asked :: "args \<Rightarrow> world \<Rightarrow> world" where
  "delete_if_asked a w =
     (if delete_existing a
      then (case get_schemas w of
              (scs, w1) \<Rightarrow> if ''readonly'' \<in> set scs then drop_schema ''readonly'' w1 else w1)
      else w)"

definition cleanup :: "world \<Rightarrow> world" where
  "cleanup w = drop_schema ''readonly'' (ro_logged GrabSession (ro_logged SessionClose w))"

text \<open>\<open>main\<close>: the result is the exception that leaves it, if any, and the world it leaves.\<close>

definition main :: "args \<Rightarrow> externals \<Rightarrow> world \<Rightarrow> exn option \<times> world" where
  "main a X w =
     (let ro_names = ro_names_of a;
          w1 = delete_if_asked a w
      in case do_generate X ro_names (allow_continue a) w1 of
           (Some e, w2) \<Rightarrow> (Some e, w2)
         | (None, w2) \<Rightarrow>
             (let w3 = ro_logged DumpReadonly w2 in
              case dump_readonly X of
                Inl e \<Rightarrow> (Some e, w3)
              | Inr dump_file \<Rightarrow>
                  (case with_ReadonlyTransferEnv X (do_load_dump X dump_file) w3 of
                     (Some e, w4) \<Rightarrow> (Some e, w4)
                   | (None, w4) \<Rightarrow> (None, cleanup w4))))"

section \<open>Example inputs\<close>

definition ev_a :: evidence where
  "ev_a = \<lparr>source_api = ''tas'', source_id = ''1'', pmid = ''100'', text_of = ''a''\<rparr>"

definition ev_b :: evidence where
  "ev_b = \<lparr>source_api = ''tas'', source_id = ''22'', pmid = ''200'', text_of = ''b''\<rparr>"

definition stmt_none :: statement where
  "stmt_none = \<lparr>stmt_type = ''Complex'', agents = [''A'', ''B''], evidence = []\<rparr>"

definition stmt_a :: statement where
  "stmt_a = \<lparr>stmt_type = ''Complex'', agents = [''A'', ''B''], evidence = [ev_a]\<rparr>"

definition stmt_b :: statement where
  "stmt_b = \<lparr>stmt_type = ''Inhibition'', agents = [''C'', ''D''], evidence = [ev_b]\<rparr>"

definition stmt_two :: statement where
  "stmt_two = \<lparr>stmt_type = ''Complex'', agents = [''A'', ''B''], evidence = [ev_a, ev_b]\<rparr>"

definition H0 :: hashing where
  "H0 = \<lparr>content_hash = (\<lambda>t ags. int (length t) + int (length ags)),
         evidence_hash = (\<lambda>ev. int (length (source_id ev)))\<rparr>"

definition m_tas :: manager where
  "m_tas = \<lparr>name = ''TAS'', short_name = ''tas'', source = ''tas'',
            get_statements = Inr [stmt_a, stmt_b]\<rparr>"

definition db_empty :: database where
  "db_empty = \<lparr>db_info = [], raw_statements = [], calls = []\<rparr>"



text \<open>A validity check that accepts complexes only.\<close>

definition valid_complex :: "statement \<Rightarrow> bool" where
  "valid_complex s = (stmt_type s = ''Complex'')"

definition db_reg :: database where
  "db_reg = \<lparr>db_info = [\<lparr>info_id = 1, db_name = ''tas'', info_source_api = ''tas'',
                          db_full_name = ''TAS''\<rparr>],
             raw_statements = [\<lparr>mk_hash = 9, source_hash = 1, db_info_id = Some 1\<rparr>],
             calls = []\<rparr>"

definition db_after :: database where
  "db_after = \<lparr>db_info = [\<lparr>info_id = 1, db_name = ''tas'', info_source_api = ''tas'',
                            db_full_name = ''TAS''\<rparr>],
               raw_statements = [\<lparr>mk_hash = 9, source_hash = 1, db_info_id = Some 1\<rparr>,
                                 \<lparr>mk_hash = 12, source_hash = 2, db_info_id = Some 1\<rparr>],
               calls = [SelectOneDBInfo ''tas'', SelectAllKeys 1, InsertDbStmts (Some 1) 1]\<rparr>"

definition m_bare :: manager where
  "m_bare = \<lparr>name = ''TAS'', short_name = ''tas'', source = ''tas'',
             get_statements = Inr (expanded [stmt_a, stmt_none])\<rparr>"

definition X_load_fails :: externals where
  "X_load_fails =
     \<lparr>principal_url = ''postgresql://principal'',
      generate_readonly = (\<lambda>ro_list cont scs.
         (None, if ''readonly'' \<in> set scs then scs else scs @ [''readonly''])),
      dump_readonly = Inr ''readonly.dump'',
      load_dump = (\<lambda>f. Some (ExternalError ''load failed'')),
      get_lambda_client = None,
      update_function_configureation = (\<lambda>env. None)\<rparr>"

definition X_gen_fails :: externals where
  "X_gen_fails =
     \<lparr>principal_url = ''postgresql://principal'',
      generate_readonly = (\<lambda>ro_list cont scs. (Some (ExternalError ''generation failed''), scs)),
      dump_readonly = Inr ''readonly.dump'',
      load_dump = (\<lambda>f. None),
      get_lambda_client = None,
      update_function_configureation = (\<lambda>env. None)\<rparr>"

definition w_idle :: world where
  "w_idle = \<lparr>schemas = [''public''], lambda_env = [], ro_calls = []\<rparr>"

definition w_left_over :: world where
  "w_left_over = \<lparr>schemas = [''public'', ''readonly''], lambda_env = [], ro_calls = []\<rparr>"

definition a_default :: args where
  "a_default = \<lparr>m_views = AllViews, allow_continue = False, delete_existing = False\<rparr>"

definition a_delete :: args where
  "a_delete = \<lparr>m_views = AllViews, allow_continue = False, delete_existing = True\<rparr>"


section \<open>Properties of the evidence expander\<close>

lemma expand_each_map:
  "expand_each s evs =
     map (\<lambda>ev. \<lparr>stmt_type = stmt_type s, agents = agents s, evidence = [ev]\<rparr>) evs"
  by (induction evs) (simp_all add: append_evidence_def make_generic_copy_def)

lemma total_evidence_append:
  "total_evidence (xs @ ys) = total_evidence xs + total_evidence ys"
  by (simp add: total_evidence_def)

lemma total_evidence_expand_each: "total_evidence (expand_each s evs) = length evs"
  by (induction evs) (simp_all add: total_evidence_def append_evidence_def make_generic_copy_def)

lemma total_evidence_expanded: "total_evidence (expanded S) = total_evidence S"
proof (induction S)
  case Nil
  show ?case by simp
next
  case (Cons s S)
  have "total_evidence (if 1 < length (evidence s) then expand_each s (evidence s) else [s])
        = length (evidence s)"
    by (simp add: total_evidence_expand_each) (simp add: total_evidence_def)
  with Cons show ?case
    by (simp add: total_evidence_append) (simp add: total_evidence_def)
qed

lemma expanded_member:
  "t \<in> set (expanded S) \<Longrightarrow> length (evidence t) = 1 \<or> (evidence t = [] \<and> t \<in> set S)"
proof (induction S)
  case Nil
  then show ?case by simp
next
  case (Cons s S)
  from Cons.prems consider
      (copy) "1 < length (evidence s)" "t \<in> set (expand_each s (evidence s))"
    | (same) "\<not> 1 < length (evidence s)" "t = s"
    | (rest) "t \<in> set (expanded S)"
    by (auto split: if_splits)
  then show ?case
  proof cases
    case copy
    then show ?thesis by (auto simp: expand_each_map)
  next
    case same
    then have "length (evidence t) = 1 \<or> evidence t = []"
      by (cases "evidence s") auto
    with same show ?thesis by auto
  next
    case rest
    with Cons.IH show ?thesis by auto
  qed
qed

text \<open>
  C4, as stated, fails: a statement without evidence is yielded as it is, so the output
  holds a statement with no evidence record.
\<close>

theorem expanded_zero_evidence_counterexample:
  "expanded [\<lparr>stmt_type = ''Complex'', agents = [''A'', ''B''], evidence = []\<rparr>]
     = [\<lparr>stmt_type = ''Complex'', agents = [''A'', ''B''], evidence = []\<rparr>]
   \<and> length (evidence \<lparr>stmt_type = ''Complex'', agents = [''A'', ''B''], evidence = []\<rparr>) \<noteq> 1"
  by simp

text \<open>
  C4 (amended): for every input sequence the expander preserves the total number of
  evidence records, and every statement of the output carries exactly one evidence record
  unless it is an input statement without evidence, which is passed through with none.
\<close>

theorem expanded_evidence_count:
  "total_evidence (expanded S) = total_evidence S \<and>
   (\<forall>t \<in> set (expanded S). length (evidence t) = 1 \<or> (evidence t = [] \<and> t \<in> set S))"
  using total_evidence_expanded expanded_member by blast

theorem expanded_evidence_count_witness:
  "total_evidence (expanded [stmt_two, stmt_none]) = 2
   \<and> \<lparr>stmt_type = ''Complex'', agents = [''A'', ''B''], evidence = [ev_b]\<rparr>
       \<in> set (expanded [stmt_two, stmt_none])
   \<and> length (evidence \<lparr>stmt_type = ''Complex'', agents = [''A'', ''B''], evidence = [ev_b]\<rparr>) = 1
   \<and> stmt_none \<in> set (expanded [stmt_two, stmt_none])
   \<and> evidence stmt_none = []"
  using expanded_evidence_count [of "[stmt_two, stmt_none]"]
  by (simp add: total_evidence_def append_evidence_def make_generic_copy_def
      stmt_two_def stmt_none_def)

text \<open>
  C5: a statement with more than one evidence record is replaced by one copy per record,
  in the order of the records, each copy with the statement's type and agents and that
  single record as its evidence; a statement with one record or none is yielded unchanged.
\<close>

theorem expanded_per_statement:
  "expanded S =
     concat (map (\<lambda>s. if length (evidence s) > 1
                       then map (\<lambda>ev. \<lparr>stmt_type = stmt_type s, agents = agents s,
                                       evidence = [ev]\<rparr>) (evidence s)
                       else [s]) S)"
  by (induction S) (simp_all add: expand_each_map)

section \<open>Properties of registration\<close>

lemma find_map_same:
  assumes "\<And>x. P (f x) = P x"
  shows "find P (map f xs) = map_option f (find P xs)"
  using assms by (induction xs) simp_all

lemma db_name_set_source_api: "db_name (set_source_api i src r) = db_name r"
  by (simp add: set_source_api_def)

lemma find_append_new:
  "find P xs = None \<Longrightarrow> P y \<Longrightarrow> find P (xs @ [y]) = Some y"
  by (induction xs) (simp_all split: if_splits)

text \<open>
  What a registration check leaves behind: the registration it returned is the one found
  under the manager's short name, and it carries the manager's source.
\<close>

lemma check_reference_registered:
  assumes "check_reference m db c = (Some i, db1)"
  shows "\<exists>r. find (\<lambda>r. db_name r = short_name m) (db_info db1) = Some r
             \<and> info_id r = i \<and> info_source_api r = source m"
proof (cases "find (\<lambda>r. db_name r = short_name m) (db_info db)")
  case None
  with assms have db1: "db1 = snd (insert_info (logged (SelectOneDBInfo (short_name m)) db)
        (short_name m) (source m) (name m))"
    and i: "i = fresh_id (logged (SelectOneDBInfo (short_name m)) db)"
    by (auto simp: check_reference_def select_one_def insert_info_def Let_def split: if_splits)
  show ?thesis
    using None by (simp add: db1 i insert_info_def Let_def logged_def find_append_new)
next
  case (Some r)
  show ?thesis
  proof (cases "info_source_api r = source m")
    case True
    with Some assms show ?thesis
      by (auto simp: check_reference_def select_one_def logged_def)
  next
    case False
    with Some assms have i: "i = info_id r"
      and db1: "db1 = commit_source_api (logged (SelectOneDBInfo (short_name m)) db) i (source m)"
      by (auto simp: check_reference_def select_one_def)
    have "find (\<lambda>r. db_name r = short_name m) (db_info db1)
          = Some (set_source_api i (source m) r)"
      using Some
      by (simp add: db1 commit_source_api_def logged_def find_map_same db_name_set_source_api)
    then show ?thesis by (simp add: i set_source_api_def)
  qed
qed

lemma check_reference_present:
  assumes "find (\<lambda>r. db_name r = short_name m) (db_info db) = Some r"
    and "info_source_api r = source m"
  shows "check_reference m db c = (Some (info_id r), logged (SelectOneDBInfo (short_name m)) db)"
  using assms by (simp add: check_reference_def select_one_def)

lemma check_reference_absent:
  assumes "find (\<lambda>r. db_name r = short_name m) (db_info db) = None"
  shows "check_reference m db False = (None, logged (SelectOneDBInfo (short_name m)) db)"
  using assms by (simp add: check_reference_def select_one_def)

lemma check_reference_None:
  assumes "check_reference m db c = (None, db1)"
  shows "\<not> c \<and> db1 = logged (SelectOneDBInfo (short_name m)) db
         \<and> find (\<lambda>r. db_name r = short_name m) (db_info db) = None"
  using assms
  by (auto simp: check_reference_def select_one_def insert_info_def Let_def
      split: option.splits if_splits)

lemma check_reference_again:
  assumes "check_reference m db c = (r1, db1)"
  shows "check_reference m db1 c = (r1, logged (SelectOneDBInfo (short_name m)) db1)"
proof (cases r1)
  case None
  with assms have "\<not> c" "find (\<lambda>r. db_name r = short_name m) (db_info db1) = None"
    using check_reference_None [of m db c db1] by (auto simp: logged_def)
  then show ?thesis
    using None check_reference_absent by simp
next
  case (Some i)
  with assms obtain r where "find (\<lambda>r. db_name r = short_name m) (db_info db1) = Some r"
    "info_id r = i" "info_source_api r = source m"
    using check_reference_registered by blast
  then show ?thesis
    using Some check_reference_present by simp
qed




section \<open>Properties of update and upload\<close>

text \<open>
  C7: on a store without a registration under the manager's short name, update raises
  the "not registered" error and leaves the store as it was but for the logged lookup:
  no registration row, no read of the keys, no call of the batch insert (and the adapter
  is not asked: the outcome does not depend on it).
\<close>

theorem update_unregistered:
  "find (\<lambda>r. db_name r = short_name m) (db_info db) = None \<Longrightarrow>
   update H m db =
     (Inl (ValueError ''This knowledge base has not yet been registered.''),
      db\<lparr>calls := calls db @ [SelectOneDBInfo (short_name m)]\<rparr>)"
  by (simp add: update_def check_reference_absent logged_def)

theorem update_unregistered_witness:
  "find (\<lambda>r. db_name r = short_name m_tas) (db_info db_empty) = None
   \<and> update H0 m_tas db_empty =
       (Inl (ValueError ''This knowledge base has not yet been registered.''),
        \<lparr>db_info = [], raw_statements = [], calls = [SelectOneDBInfo ''tas'']\<rparr>)"
  using update_unregistered [where m = m_tas and db = db_empty and H = H0]
  by (simp add: m_tas_def db_empty_def)

lemma check_reference_raw: "raw_statements (snd (check_reference m db c)) = raw_statements db"
  by (simp add: check_reference_def select_one_def insert_info_def commit_source_api_def
      logged_def Let_def split: option.splits)

lemma check_reference_no_batch:
  "filter is_batch_insert (calls (snd (check_reference m db c)))
   = filter is_batch_insert (calls db)"
  by (simp add: check_reference_def select_one_def insert_info_def commit_source_api_def
      logged_def Let_def split: option.splits)

lemma assert_all_valid_invalid:
  "\<exists>s \<in> set stmts. \<not> valid s \<Longrightarrow> assert_all_valid valid stmts = Inl InvalidStatement"
  by (induction stmts) auto

text \<open>
  C2, as stated, fails: on a first upload the registration check inserts the registration
  row before the statements are fetched and validated, so a call that raises on an invalid
  statement has persisted that row.
\<close>

theorem upload_registers_before_validation_counterexample:
  "db_info db_empty = []
   \<and> get_statements m_tas = Inr [stmt_a, stmt_b]
   \<and> valid_complex stmt_b = False
   \<and> fst (upload H0 valid_complex m_tas db_empty) = Inl InvalidStatement
   \<and> db_info (snd (upload H0 valid_complex m_tas db_empty))
       = [\<lparr>info_id = 1, db_name = ''tas'', info_source_api = ''tas'',
           db_full_name = ''TAS''\<rparr>]
   \<and> calls (snd (upload H0 valid_complex m_tas db_empty))
       = [SelectOneDBInfo ''tas'', InsertDBInfo ''tas'' ''tas'' ''TAS'']"
  by (simp add: upload_def m_tas_def stmt_a_def stmt_b_def db_empty_def valid_complex_def
      check_reference_def select_one_def insert_info_def fresh_id_def logged_def)

text \<open>
  C2 (amended): when the batch the adapter returned holds a statement that fails the
  validity check, upload raises the validation error before the batch insert is invoked:
  the store is left exactly as the registration check left it, so no statement row is
  persisted for that call and the batch insert is not among the calls made. What the
  registration check wrote before validation (the registration row of a first upload, or
  an overwritten source) stays.
\<close>

theorem upload_invalid_batch:
  assumes "get_statements m = Inr stmts" and "\<exists>s \<in> set stmts. \<not> valid s"
  shows "upload H valid m db = (Inl InvalidStatement, snd (check_reference m db True))
     \<and> raw_statements (snd (upload H valid m db)) = raw_statements db
     \<and> filter is_batch_insert (calls (snd (upload H valid m db)))
         = filter is_batch_insert (calls db)"
proof -
  have u: "upload H valid m db = (Inl InvalidStatement, snd (check_reference m db True))"
    using assms assert_all_valid_invalid [of stmts valid]
    by (cases "check_reference m db True") (simp add: upload_def)
  show ?thesis
    by (simp add: u check_reference_raw check_reference_no_batch)
qed

theorem upload_invalid_batch_witness:
  "get_statements m_tas = Inr [stmt_a, stmt_b]
   \<and> stmt_b \<in> set [stmt_a, stmt_b] \<and> valid_complex stmt_b = False
   \<and> raw_statements db_reg = [\<lparr>mk_hash = 9, source_hash = 1, db_info_id = Some 1\<rparr>]
   \<and> upload H0 valid_complex m_tas db_reg
       = (Inl InvalidStatement,
          \<lparr>db_info = [\<lparr>info_id = 1, db_name = ''tas'', info_source_api = ''tas'',
                       db_full_name = ''TAS''\<rparr>],
           raw_statements = [\<lparr>mk_hash = 9, source_hash = 1, db_info_id = Some 1\<rparr>],
           calls = [SelectOneDBInfo ''tas'']\<rparr>)"
  using upload_invalid_batch [where m = m_tas and stmts = "[stmt_a, stmt_b]"
      and valid = valid_complex and H = H0 and db = db_reg]
  by (simp add: m_tas_def stmt_a_def stmt_b_def db_reg_def valid_complex_def
      check_reference_def select_one_def logged_def)

lemma filter_new_IndexError:
  "(filter_new H K stmts = Inl IndexError) = (\<exists>s \<in> set stmts. evidence s = [])"
  by (induction stmts) (auto split: list.splits sum.splits)

lemma filter_new_total:
  "\<forall>s \<in> set stmts. evidence s \<noteq> [] \<Longrightarrow>
   filter_new H K stmts =
     Inr (filter (\<lambda>s. (get_hash H s, get_source_hash H (hd (evidence s))) \<notin> K) stmts)"
  by (induction stmts) (auto split: list.splits)

lemma filter_new_Inr:
  assumes "filter_new H K stmts = Inr fs"
  shows "(\<forall>s \<in> set stmts. evidence s \<noteq> [])
       \<and> fs = filter (\<lambda>s. (get_hash H s, get_source_hash H (hd (evidence s))) \<notin> K) stmts"
proof -
  have "\<not> (\<exists>s \<in> set stmts. evidence s = [])"
    using assms filter_new_IndexError [of H K stmts] by auto
  then have ne: "\<forall>s \<in> set stmts. evidence s \<noteq> []" by blast
  with assms show ?thesis using filter_new_total [of stmts H K] by simp
qed

lemma batch_rows_Inr:
  "batch_rows H d fs = Inr rows \<Longrightarrow>
   rows = map (\<lambda>s. stmt_row H d s (hd (evidence s))) fs
   \<and> (\<forall>s \<in> set fs. length (evidence s) = 1)"
proof (induction fs arbitrary: rows)
  case Nil
  then show ?case by simp
next
  case (Cons s fs)
  then show ?case
    by (auto split: list.splits sum.splits)
qed

text \<open>A completed update, taken apart.\<close>

lemma update_completed:
  assumes "update H m db = (Inr (), db1)"
  obtains dbid dba stmts fs rows where
    "check_reference m db False = (Some dbid, dba)"
    "get_statements m = Inr stmts"
    "filter_new H (set (map row_key (filter (\<lambda>r. db_info_id r = Some dbid) (raw_statements db)))) stmts = Inr fs"
    "batch_rows H (Some dbid) fs = Inr rows"
    "db_info db1 = db_info dba"
    "raw_statements db1 = raw_statements db @ rows"
proof -
  obtain r dba where cr: "check_reference m db False = (r, dba)"
    by (cases "check_reference m db False")
  have raw: "raw_statements dba = raw_statements db"
    using check_reference_raw [of m db False] cr by simp
  from assms cr obtain dbid where r: "r = Some dbid"
    by (cases r) (auto simp: update_def)
  from assms cr r obtain stmts where st: "get_statements m = Inr stmts"
    by (cases "get_statements m") (auto simp: update_def select_all_keys_def)
  let ?K = "set (map row_key (filter (\<lambda>r. db_info_id r = Some dbid) (raw_statements db)))"
  from assms cr r st raw obtain fs where fs: "filter_new H ?K stmts = Inr fs"
    by (cases "filter_new H ?K stmts") (auto simp: update_def select_all_keys_def)
  from assms cr r st raw fs obtain rows where rows: "batch_rows H (Some dbid) fs = Inr rows"
    by (cases "batch_rows H (Some dbid) fs")
      (auto simp: update_def select_all_keys_def insert_db_stmts_def Let_def)
  from assms cr r st raw fs rows
  have "db_info db1 = db_info dba" "raw_statements db1 = raw_statements db @ rows"
    by (auto simp: update_def select_all_keys_def insert_db_stmts_def Let_def logged_def)
  with cr r st fs rows that show thesis by blast
qed

lemma update_raw_extends:
  "\<exists>rows. raw_statements (snd (update H m db)) = raw_statements db @ rows"
proof -
  obtain r dba where cr: "check_reference m db False = (r, dba)"
    by (cases "check_reference m db False")
  have raw: "raw_statements dba = raw_statements db"
    using check_reference_raw [of m db False] cr by simp
  show ?thesis
    using cr raw
    by (auto simp: update_def select_all_keys_def insert_db_stmts_def Let_def logged_def
        split: option.splits sum.splits)
qed

text \<open>
  C8: after a completed update the statement rows of before are still there, in place and
  unchanged, with the new rows after them; so for every registration the set of persisted
  key pairs has only grown.
\<close>

theorem update_only_inserts:
  assumes "update H m db = (Inr (), db')"
  shows "take (length (raw_statements db)) (raw_statements db') = raw_statements db
       \<and> set (fst (select_all_keys db dbid)) \<subseteq> set (fst (select_all_keys db' dbid))"
proof -
  obtain rows where "raw_statements db' = raw_statements db @ rows"
    using update_raw_extends [of H m db] assms by auto
  then show ?thesis by (auto simp: select_all_keys_def)
qed


lemma update_twice_aux:
  assumes "update H m db = (Inr (), db1)"
  shows "\<exists>dbid stmts.
           check_reference m db1 False = (Some dbid, logged (SelectOneDBInfo (short_name m)) db1)
         \<and> get_statements m = Inr stmts
         \<and> filter_new H (set (fst (select_all_keys db1 dbid))) stmts = Inr []"
proof -
  from assms obtain dbid dba stmts fs rows where
    cr: "check_reference m db False = (Some dbid, dba)" and
    st: "get_statements m = Inr stmts" and
    fs: "filter_new H (set (map row_key (filter (\<lambda>r. db_info_id r = Some dbid)
            (raw_statements db)))) stmts = Inr fs" and
    rows: "batch_rows H (Some dbid) fs = Inr rows" and
    info: "db_info db1 = db_info dba" and
    raw: "raw_statements db1 = raw_statements db @ rows"
    by (rule update_completed)
  let ?K = "set (map row_key (filter (\<lambda>r. db_info_id r = Some dbid) (raw_statements db)))"
  let ?K1 = "set (fst (select_all_keys db1 dbid))"
  let ?key = "\<lambda>s. (get_hash H s, get_source_hash H (hd (evidence s)))"
  from cr obtain r where "find (\<lambda>r. db_name r = short_name m) (db_info dba) = Some r"
    "info_id r = dbid" "info_source_api r = source m"
    using check_reference_registered by blast
  then have cr1: "check_reference m db1 False
                  = (Some dbid, logged (SelectOneDBInfo (short_name m)) db1)"
    using check_reference_present [of m db1 r False] info by simp
  have ne: "\<forall>s \<in> set stmts. evidence s \<noteq> []"
    and fs_eq: "fs = filter (\<lambda>s. ?key s \<notin> ?K) stmts"
    using filter_new_Inr [OF fs] by simp_all
  have rows_eq: "rows = map (\<lambda>s. stmt_row H (Some dbid) s (hd (evidence s))) fs"
    using batch_rows_Inr [OF rows] by simp
  have K1: "?K1 = ?K \<union> ?key ` set fs"
    by (auto simp: select_all_keys_def raw rows_eq stmt_row_def row_key_def image_iff)
  have "\<forall>s \<in> set stmts. ?key s \<in> ?K1"
    unfolding K1 using fs_eq by auto
  then have "filter (\<lambda>s. ?key s \<notin> ?K1) stmts = []"
    by (simp add: filter_empty_conv)
  then have "filter_new H ?K1 stmts = Inr []"
    using filter_new_total [OF ne, of H ?K1] by simp
  with cr1 st show ?thesis by blast
qed

lemma update_example: "update H0 m_tas db_reg = (Inr (), db_after)"
  by code_simp

theorem update_only_inserts_witness:
  "update H0 m_tas db_reg = (Inr (), db_after)
   \<and> take (length (raw_statements db_reg)) (raw_statements db_after) = raw_statements db_reg
   \<and> set (fst (select_all_keys db_reg 1)) \<subseteq> set (fst (select_all_keys db_after 1))"
  using update_only_inserts [where H = H0 and m = m_tas and db = db_reg and db' = db_after
      and dbid = 1] update_example by simp

lemma check_reference_info_only:
  assumes "db_info db' = db_info db"
  shows "fst (check_reference m db' c) = fst (check_reference m db c)
       \<and> db_info (snd (check_reference m db' c)) = db_info (snd (check_reference m db c))"
  using assms
  by (simp add: check_reference_def select_one_def insert_info_def commit_source_api_def
      fresh_id_def logged_def Let_def split: option.splits)

lemma insert_db_stmts_tables:
  "db_info (snd (insert_db_stmts H db fs d)) = db_info db
   \<and> (fst (insert_db_stmts H db fs d) \<noteq> Inr () \<longrightarrow>
        raw_statements (snd (insert_db_stmts H db fs d)) = raw_statements db)"
  by (simp add: insert_db_stmts_def logged_def Let_def split: sum.splits)

text \<open>The outcome of an update and the tables it leaves depend on the tables only.\<close>

lemma update_tables_only:
  assumes "db_info db' = db_info db" and "raw_statements db' = raw_statements db"
  shows "fst (update H m db') = fst (update H m db)
       \<and> raw_statements (snd (update H m db')) = raw_statements (snd (update H m db))"
proof -
  obtain r dba where cr: "check_reference m db False = (r, dba)"
    by (cases "check_reference m db False")
  obtain r' dba' where cr': "check_reference m db' False = (r', dba')"
    by (cases "check_reference m db' False")
  have r: "r' = r"
    using check_reference_info_only [OF assms(1), of m False] cr cr' by simp
  have raw: "raw_statements dba = raw_statements db" "raw_statements dba' = raw_statements db"
    using check_reference_raw [of m db False] check_reference_raw [of m db' False] cr cr' assms(2)
    by simp_all
  show ?thesis
    using cr cr' r raw
    by (auto simp: update_def select_all_keys_def insert_db_stmts_def logged_def Let_def
        split: option.splits sum.splits)
qed

lemma update_failed_tables:
  assumes "fst (update H m db) = Inl e"
  shows "raw_statements (snd (update H m db)) = raw_statements db
       \<and> db_info (snd (update H m db)) = db_info (snd (check_reference m db False))"
proof -
  obtain r dba where cr: "check_reference m db False = (r, dba)"
    by (cases "check_reference m db False")
  have raw: "raw_statements dba = raw_statements db"
    using check_reference_raw [of m db False] cr by simp
  show ?thesis
    using assms cr raw
    by (auto simp: update_def select_all_keys_def insert_db_stmts_def logged_def Let_def
        split: option.splits sum.splits)
qed

lemma update_after_check:
  "fst (update H m (snd (check_reference m db False))) = fst (update H m db)"
proof -
  obtain r dba where cr: "check_reference m db False = (r, dba)"
    by (cases "check_reference m db False")
  have cr2: "check_reference m dba False = (r, logged (SelectOneDBInfo (short_name m)) dba)"
    using check_reference_again [OF cr] .
  have raw: "raw_statements dba = raw_statements db"
    using check_reference_raw [of m db False] cr by simp
  show ?thesis
    using cr cr2 raw
    by (auto simp: update_def select_all_keys_def insert_db_stmts_def logged_def Let_def
        split: option.splits sum.splits)
qed

lemma update_failed_again:
  assumes "fst (update H m db) = Inl e"
  shows "fst (update H m (snd (update H m db))) = Inl e
       \<and> raw_statements (snd (update H m (snd (update H m db))))
           = raw_statements (snd (update H m db))"
proof -
  let ?db1 = "snd (update H m db)"
  let ?dba = "snd (check_reference m db False)"
  have t: "raw_statements ?db1 = raw_statements ?dba" "db_info ?db1 = db_info ?dba"
    using update_failed_tables [OF assms] check_reference_raw [of m db False] by simp_all
  have "fst (update H m ?db1) = fst (update H m ?dba)"
    using update_tables_only [OF t(2) t(1), of H m] by simp
  then have f: "fst (update H m ?db1) = Inl e"
    using update_after_check [of H m db] assms by simp
  show ?thesis
    using f update_failed_tables [OF f] by simp
qed


lemma update_completed_again:
  assumes "update H m db = (Inr (), db1)"
  shows "fst (update H m db1) = Inr ()
       \<and> raw_statements (snd (update H m db1)) = raw_statements db1"
proof -
  from update_twice_aux [OF assms] obtain dbid stmts where
    cr: "check_reference m db1 False = (Some dbid, logged (SelectOneDBInfo (short_name m)) db1)"
    and st: "get_statements m = Inr stmts"
    and fl: "filter_new H (set (fst (select_all_keys db1 dbid))) stmts = Inr []"
    by blast
  obtain keys db2 where sk:
    "select_all_keys (logged (SelectOneDBInfo (short_name m)) db1) dbid = (keys, db2)"
    by (cases "select_all_keys (logged (SelectOneDBInfo (short_name m)) db1) dbid")
  have k: "keys = fst (select_all_keys db1 dbid)"
    and d: "db2 = logged (SelectAllKeys dbid) (logged (SelectOneDBInfo (short_name m)) db1)"
    using sk by (auto simp: select_all_keys_def logged_def)
  have "update H m db1 = insert_db_stmts H db2 [] (Some dbid)"
    using cr st fl sk k by (simp add: update_def)
  then show ?thesis
    by (simp add: insert_db_stmts_def Let_def d logged_def)
qed

text \<open>
  C3: an update run right after an update, on the same adapter output, leaves the
  statement rows as the first one left them; and when the first one completed, the second
  one completes, and the key of every fetched statement is in the key index built from
  the stored rows, so its filtered list is empty.
\<close>

theorem update_twice:
  "raw_statements (snd (update H m (snd (update H m db))))
     = raw_statements (snd (update H m db))
   \<and> (fst (update H m db) = Inr () \<longrightarrow>
        fst (update H m (snd (update H m db))) = Inr ()
        \<and> (\<exists>dbid stmts.
              fst (check_reference m (snd (update H m db)) False) = Some dbid
            \<and> get_statements m = Inr stmts
            \<and> filter_new H (set (fst (select_all_keys (snd (update H m db)) dbid))) stmts
                = Inr []))"
proof (cases "fst (update H m db)")
  case (Inl e)
  then show ?thesis using update_failed_again [of H m db e] by simp
next
  case (Inr u)
  then have c: "update H m db = (Inr (), snd (update H m db))"
    by (cases "update H m db") simp
  have "\<exists>dbid stmts.
              fst (check_reference m (snd (update H m db)) False) = Some dbid
            \<and> get_statements m = Inr stmts
            \<and> filter_new H (set (fst (select_all_keys (snd (update H m db)) dbid))) stmts
                = Inr []"
    using update_twice_aux [OF c] by fastforce
  then show ?thesis
    using update_completed_again [OF c] by simp
qed

theorem update_twice_witness:
  "fst (update H0 m_tas db_reg) = Inr ()
   \<and> snd (update H0 m_tas db_reg) = db_after
   \<and> fst (update H0 m_tas db_after) = Inr ()
   \<and> raw_statements (snd (update H0 m_tas db_after)) = raw_statements db_after
   \<and> fst (check_reference m_tas db_after False) = Some 1
   \<and> filter_new H0 (set (fst (select_all_keys db_after 1))) [stmt_a, stmt_b] = Inr []"
proof -
  have k: "fst (select_all_keys db_after 1) = [(9, 1), (12, 2)]"
    by code_simp
  have f: "filter_new H0 (set [(9, 1), (12, 2)]) [stmt_a, stmt_b] = Inr []"
    by (simp add: stmt_a_def stmt_b_def ev_a_def ev_b_def H0_def get_hash_def
        get_source_hash_def)
  have c: "fst (check_reference m_tas db_after False) = Some 1"
    by code_simp
  show ?thesis
    using update_twice [where H = H0 and m = m_tas and db = db_reg] update_example k f c
    by simp
qed

lemma update_IndexError:
  assumes "check_reference m db False = (Some dbid, db1)"
    and "get_statements m = Inr stmts"
    and "\<exists>s \<in> set stmts. evidence s = []"
  shows "fst (update H m db) = Inl IndexError"
proof -
  have "filter_new H K stmts = Inl IndexError" for K
    using assms(3) filter_new_IndexError by blast
  with assms(1,2) show ?thesis
    by (simp add: update_def select_all_keys_def)
qed

text \<open>
  C10: the filtering step of update raises the index error exactly when a fetched
  statement has no evidence record, and is the plain filter on the key otherwise; the
  expander yields a statement without evidence as it is; and update on a registered
  knowledge base raises the index error when the adapter returns such a statement.
\<close>

theorem update_needs_evidence:
  "(filter_new H K stmts = Inl IndexError \<longleftrightarrow> (\<exists>s \<in> set stmts. evidence s = []))
   \<and> ((\<forall>s \<in> set stmts. evidence s \<noteq> []) \<longrightarrow>
        filter_new H K stmts =
          Inr (filter (\<lambda>s. (get_hash H s, get_source_hash H (hd (evidence s))) \<notin> K) stmts))
   \<and> (evidence s0 = [] \<longrightarrow> expanded [s0] = [s0])
   \<and> (check_reference m db False = (Some dbid, db1) \<and> get_statements m = Inr stmts
        \<and> (\<exists>s \<in> set stmts. evidence s = []) \<longrightarrow>
      fst (update H m db) = Inl IndexError)"
  using filter_new_IndexError [of H K stmts] filter_new_total [of stmts H K]
    update_IndexError [of m db dbid db1 stmts H]
  by simp

theorem update_needs_evidence_witness:
  "expanded [stmt_none] = [stmt_none] \<and> evidence stmt_none = []
   \<and> get_statements m_bare = Inr [stmt_a, stmt_none]
   \<and> stmt_none \<in> set [stmt_a, stmt_none]
   \<and> check_reference m_bare db_reg False
       = (Some 1, db_reg\<lparr>calls := [SelectOneDBInfo ''tas'']\<rparr>)
   \<and> filter_new H0 {} [stmt_a, stmt_none] = Inl IndexError
   \<and> fst (update H0 m_bare db_reg) = Inl IndexError
   \<and> filter_new H0 {(9, 1)} [stmt_a, stmt_b] = Inr [stmt_b]"
  using update_needs_evidence [where H = H0 and K = "{}" and stmts = "[stmt_a, stmt_none]"
      and ?s0.0 = stmt_none and m = m_bare and db = db_reg and dbid = 1
      and ?db1.0 = "db_reg\<lparr>calls := [SelectOneDBInfo ''tas'']\<rparr>"]
    update_needs_evidence [where H = H0 and K = "{(9, 1)}" and stmts = "[stmt_a, stmt_b]"
      and ?s0.0 = stmt_none and m = m_bare and db = db_reg and dbid = 1
      and ?db1.0 = "db_reg\<lparr>calls := [SelectOneDBInfo ''tas'']\<rparr>"]
  by (simp add: m_bare_def stmt_none_def stmt_a_def stmt_b_def ev_a_def ev_b_def db_reg_def
      check_reference_def select_one_def logged_def H0_def get_hash_def get_source_hash_def)

section \<open>Properties of the snapshot refresh\<close>

lemma exit_with_exc_info: "exit X (exc_info r) w = (Some TypeError, w)"
  by (simp add: exit_def exc_info_def)

lemma with_after_enter:
  assumes "enter X w = (None, w1)" and "body w1 = (r, w2)"
  shows "with_ReadonlyTransferEnv X body w = (Some TypeError, w2)"
  using assms by (simp add: with_ReadonlyTransferEnv_def exit_with_exc_info)

lemma with_enter_fails:
  assumes "enter X w = (Some e, w1)"
  shows "with_ReadonlyTransferEnv X body w = (Some e, w1)"
  using assms by (simp add: with_ReadonlyTransferEnv_def)

lemma enter_ok:
  assumes "get_lambda_client X = None"
    and "update_function_configureation X [(''INDRAROOVERRIDE'', principal_url X)] = None"
  shows "enter X w =
     (None, w\<lparr>lambda_env := [(''INDRAROOVERRIDE'', principal_url X)],
             ro_calls := ro_calls w @ [GetLambdaClient,
               UpdateFunctionConfigureation [(''INDRAROOVERRIDE'', principal_url X)]]\<rparr>)"
  using assms by (simp add: enter_def set_lambda_env_def ro_logged_def Let_def)

text \<open>
  C1, as the code has it: \<open>__exit__\<close> takes no exception arguments, so the call the
  \<open>with\<close> statement makes on leaving the block raises \<open>TypeError\<close> before the
  environment is touched. When the redirect was set and the load raises, the run ends
  with that \<open>TypeError\<close>, the redirect still in the serving function's environment, and
  the load as the last call made: no revert is attempted.
\<close>

theorem cutover_not_reverted:
  assumes "get_lambda_client X = None"
    and "update_function_configureation X [(''INDRAROOVERRIDE'', principal_url X)] = None"
    and "fst (do_generate X (ro_names_of a) (allow_continue a) (delete_if_asked a w)) = None"
    and "dump_readonly X = Inr dump_file"
    and "load_dump X dump_file = Some e"
  shows "fst (main a X w) = Some TypeError
       \<and> lambda_env (snd (main a X w)) = [(''INDRAROOVERRIDE'', principal_url X)]
       \<and> last (ro_calls (snd (main a X w))) = LoadDump dump_file"
proof -
  obtain w2 where g: "do_generate X (ro_names_of a) (allow_continue a) (delete_if_asked a w)
      = (None, w2)"
    using assms(3) by (cases "do_generate X (ro_names_of a) (allow_continue a) (delete_if_asked a w)") simp
  let ?w3 = "ro_logged DumpReadonly w2"
  let ?w4 = "?w3\<lparr>lambda_env := [(''INDRAROOVERRIDE'', principal_url X)],
             ro_calls := ro_calls ?w3 @ [GetLambdaClient,
               UpdateFunctionConfigureation [(''INDRAROOVERRIDE'', principal_url X)]]\<rparr>"
  have "with_ReadonlyTransferEnv X (do_load_dump X dump_file) ?w3
        = (Some TypeError, ro_logged (LoadDump dump_file) ?w4)"
    using with_after_enter [OF enter_ok [OF assms(1,2), of ?w3], of "do_load_dump X dump_file"]
    by (simp add: do_load_dump_def)
  then have "main a X w = (Some TypeError, ro_logged (LoadDump dump_file) ?w4)"
    using g assms(4) by (simp add: main_def ro_names_of_def Let_def)
  then show ?thesis by (simp add: ro_logged_def)
qed


theorem cutover_not_reverted_witness:
  "get_lambda_client X_load_fails = None
   \<and> update_function_configureation X_load_fails
         [(''INDRAROOVERRIDE'', principal_url X_load_fails)] = None
   \<and> dump_readonly X_load_fails = Inr ''readonly.dump''
   \<and> load_dump X_load_fails ''readonly.dump'' = Some (ExternalError ''load failed'')
   \<and> lambda_env w_idle = []
   \<and> main a_default X_load_fails w_idle =
       (Some TypeError,
        \<lparr>schemas = [''public'', ''readonly''],
         lambda_env = [(''INDRAROOVERRIDE'', ''postgresql://principal'')],
         ro_calls = [GenerateReadonly None False, DumpReadonly, GetLambdaClient,
                     UpdateFunctionConfigureation
                       [(''INDRAROOVERRIDE'', ''postgresql://principal'')],
                     LoadDump ''readonly.dump'']\<rparr>)"
  using cutover_not_reverted [where X = X_load_fails and a = a_default and w = w_idle
      and dump_file = "''readonly.dump''" and e = "ExternalError ''load failed''"]
  by (simp add: X_load_fails_def a_default_def w_idle_def main_def ro_names_of_def
      delete_if_asked_def do_generate_def ro_logged_def with_ReadonlyTransferEnv_def
      enter_def exit_def exc_info_def set_lambda_env_def do_load_dump_def Let_def)

lemma delete_if_asked_drops:
  "filter is_drop (ro_calls (delete_if_asked a w))
   = filter is_drop (ro_calls w)
     @ (if delete_existing a \<and> ''readonly'' \<in> set (schemas w)
        then [DropSchema ''readonly''] else [])"
  by (simp add: delete_if_asked_def get_schemas_def drop_schema_def ro_logged_def)

lemma set_lambda_env_frame:
  "schemas (snd (set_lambda_env X env w)) = schemas w
   \<and> filter is_drop (ro_calls (snd (set_lambda_env X env w))) = filter is_drop (ro_calls w)"
  by (simp add: set_lambda_env_def ro_logged_def Let_def split: option.splits)

lemma with_load_frame:
  "fst (with_ReadonlyTransferEnv X (do_load_dump X f) w) \<noteq> None
   \<and> schemas (snd (with_ReadonlyTransferEnv X (do_load_dump X f) w)) = schemas w
   \<and> filter is_drop (ro_calls (snd (with_ReadonlyTransferEnv X (do_load_dump X f) w)))
       = filter is_drop (ro_calls w)"
proof (cases "enter X w")
  case (Pair r w1)
  have fr: "schemas w1 = schemas w" "filter is_drop (ro_calls w1) = filter is_drop (ro_calls w)"
    using Pair set_lambda_env_frame [of X "[(''INDRAROOVERRIDE'', principal_url X)]" w]
    by (simp_all add: enter_def)
  show ?thesis
  proof (cases r)
    case None
    have "with_ReadonlyTransferEnv X (do_load_dump X f) w
          = (Some TypeError, ro_logged (LoadDump f) w1)"
      using Pair None with_after_enter [of X w w1 "do_load_dump X f"]
      by (simp add: do_load_dump_def)
    then show ?thesis using fr by (simp add: ro_logged_def)
  next
    case (Some e)
    then show ?thesis using Pair fr by (simp add: with_enter_fails)
  qed
qed

lemma main_after_generation:
  "fst (main a X w) \<noteq> None
   \<and> schemas (snd (main a X w))
       = snd (generate_readonly X (ro_names_of a) (allow_continue a)
                (schemas (delete_if_asked a w)))
   \<and> filter is_drop (ro_calls (snd (main a X w)))
       = filter is_drop (ro_calls (delete_if_asked a w))"
proof -
  let ?w1 = "delete_if_asked a w"
  obtain g scs where gen:
    "generate_readonly X (ro_names_of a) (allow_continue a) (schemas ?w1) = (g, scs)"
    by (cases "generate_readonly X (ro_names_of a) (allow_continue a) (schemas ?w1)")
  let ?w2 = "ro_logged (GenerateReadonly (ro_names_of a) (allow_continue a))
               (?w1\<lparr>schemas := scs\<rparr>)"
  have dg: "do_generate X (ro_names_of a) (allow_continue a) ?w1 = (g, ?w2)"
    using gen by (simp add: do_generate_def)
  have w2: "schemas ?w2 = scs" "filter is_drop (ro_calls ?w2) = filter is_drop (ro_calls ?w1)"
    by (simp_all add: ro_logged_def)
  show ?thesis
  proof (cases g)
    case (Some e)
    then have "main a X w = (Some e, ?w2)"
      using dg by (simp add: main_def Let_def)
    then show ?thesis using gen w2 by simp
  next
    case None
    let ?w3 = "ro_logged DumpReadonly ?w2"
    have w3: "schemas ?w3 = scs" "filter is_drop (ro_calls ?w3) = filter is_drop (ro_calls ?w1)"
      by (simp_all add: ro_logged_def)
    show ?thesis
    proof (cases "dump_readonly X")
      case (Inl e)
      then have "main a X w = (Some e, ?w3)"
        using dg None by (simp add: main_def Let_def)
      then show ?thesis using gen w3 by simp
    next
      case (Inr f)
      obtain e w4 where wl: "with_ReadonlyTransferEnv X (do_load_dump X f) ?w3 = (Some e, w4)"
        using with_load_frame [of X f ?w3]
        by (cases "with_ReadonlyTransferEnv X (do_load_dump X f) ?w3") auto
      then have m: "main a X w = (Some e, w4)"
        using dg None Inr by (simp add: main_def Let_def)
      have "schemas w4 = schemas ?w3"
        "filter is_drop (ro_calls w4) = filter is_drop (ro_calls ?w3)"
        using with_load_frame [of X f ?w3] wl by simp_all
      then show ?thesis using m gen w3 by simp
    qed
  qed
qed

text \<open>
  C9 (amended): when generation, dump or load raises, the run ends with an error, the
  schema list is as generation left it, and the only \<open>drop_schema\<close> call of the run is the
  one made before generation when \<open>delete_existing\<close> is set and a \<open>readonly\<close> schema
  exists: the cleanup drop after the cutover block is not executed.
\<close>

theorem no_drop_after_failure:
  assumes "fst (generate_readonly X (ro_names_of a) (allow_continue a)
                  (schemas (delete_if_asked a w))) \<noteq> None
         \<or> (\<exists>e. dump_readonly X = Inl e)
         \<or> (\<exists>f e. dump_readonly X = Inr f \<and> load_dump X f = Some e)"
  shows "fst (main a X w) \<noteq> None
       \<and> schemas (snd (main a X w))
           = snd (generate_readonly X (ro_names_of a) (allow_continue a)
                    (schemas (delete_if_asked a w)))
       \<and> filter is_drop (ro_calls (snd (main a X w)))
           = filter is_drop (ro_calls w)
             @ (if delete_existing a \<and> ''readonly'' \<in> set (schemas w)
                then [DropSchema ''readonly''] else [])"
  using main_after_generation [of a X w] delete_if_asked_drops [of a w] by simp

theorem no_drop_after_failure_witness:
  "dump_readonly X_load_fails = Inr ''readonly.dump''
   \<and> load_dump X_load_fails ''readonly.dump'' = Some (ExternalError ''load failed'')
   \<and> fst (main a_delete X_load_fails w_left_over) = Some TypeError
   \<and> schemas (snd (main a_delete X_load_fails w_left_over)) = [''public'', ''readonly'']
   \<and> filter is_drop (ro_calls (snd (main a_delete X_load_fails w_left_over)))
       = [DropSchema ''readonly'']"
  using no_drop_after_failure [where X = X_load_fails and a = a_delete and w = w_left_over]
  by (simp add: X_load_fails_def a_delete_def w_left_over_def main_def ro_names_of_def
      delete_if_asked_def get_schemas_def drop_schema_def do_generate_def ro_logged_def
      with_ReadonlyTransferEnv_def enter_def exit_def exc_info_def set_lambda_env_def
      do_load_dump_def Let_def)

text \<open>
  C9, as stated, fails: with \<open>delete_existing\<close> set and a \<open>readonly\<close> schema left over,
  the schema is dropped before generation; when generation then raises, the drop has been
  executed without any load and the schema is gone.
\<close>

theorem drop_before_generation_counterexample:
  "''readonly'' \<in> set (schemas w_left_over)
   \<and> main a_delete X_gen_fails w_left_over =
       (Some (ExternalError ''generation failed''),
        \<lparr>schemas = [''public''], lambda_env = [],
         ro_calls = [GetSchemas, DropSchema ''readonly'', GenerateReadonly None False]\<rparr>)"
  by (simp add: X_gen_fails_def a_delete_def w_left_over_def main_def ro_names_of_def
      delete_if_asked_def get_schemas_def drop_schema_def do_generate_def ro_logged_def Let_def)

end
